theory Spec2Isabelle
  imports Complex_Main
begin

section \<open>Values exchanged with the Matrix server\<close>

text \<open>
  The adapter in \<^verbatim>\<open>opsdroid/connector/matrix/matrix_async.py\<close> handles Python
  values decoded from JSON. They are modelled by the datatype \<open>json\<close>: Python's
  \<^verbatim>\<open>None\<close> is \<open>JNull\<close>, a \<^verbatim>\<open>dict\<close> is an association list read with
  \<open>map_of\<close> (keys of a decoded object are unique, so the first binding is the only
  one). Numbers are the integers; numbers with a fractional part are floating point
  values in Python and are left out of the model. Strings are lists of
  characters; what Python does to the characters of a string beyond comparing them
  (\<^verbatim>\<open>str.upper\<close>, \<^verbatim>\<open>quote\<close>, \<^verbatim>\<open>json.dumps\<close>) is not defined here but taken
  as an argument where the code calls it.
\<close>

datatype json =
    JNull
  | JBool bool
  | JInt int
  | JStr string
  | JArr "json list"
  | JObj "(string \<times> json) list"

text \<open>The exceptions that the modelled code can raise, as values.\<close>

datatype error =
    MatrixError string
  | MatrixRequestError int string
  | KeyError string
  | TypeError
  | OverflowError
  | AttributeError
  | JSONDecodeError

text \<open>Python truthiness, as used by \<^verbatim>\<open>if not content\<close>.\<close>

fun truthy :: "json \<Rightarrow> bool" where
  "truthy JNull = False"
| "truthy (JBool b) = b"
| "truthy (JInt i) = (i \<noteq> 0)"
| "truthy (JStr s) = (s \<noteq> [])"
| "truthy (JArr xs) = (xs \<noteq> [])"
| "truthy (JObj kvs) = (kvs \<noteq> [])"

text \<open>
  \<^verbatim>\<open>obj[key]\<close> with a string key: a dictionary raises \<^verbatim>\<open>KeyError\<close> on a missing
  key, every other value raises \<^verbatim>\<open>TypeError\<close> (a list or a string wants an integer
  index, the remaining values are not subscriptable).
\<close>

fun subscript :: "json \<Rightarrow> string \<Rightarrow> error + json" where
  "subscript (JObj kvs) k = (case map_of kvs k of None \<Rightarrow> Inl (KeyError k) | Some v \<Rightarrow> Inr v)"
| "subscript _ k = Inl TypeError"

text \<open>
  \<^verbatim>\<open>obj.get(key, None)\<close>: defined on dictionaries only, every other decoded value
  has no attribute \<^verbatim>\<open>get\<close>.
\<close>

fun dict_get :: "json \<Rightarrow> string \<Rightarrow> error + json" where
  "dict_get (JObj kvs) k = (case map_of kvs k of None \<Rightarrow> Inr JNull | Some v \<Rightarrow> Inr v)"
| "dict_get _ k = Inl AttributeError"

text \<open>
  \<^verbatim>\<open>d[k] = v\<close> on an insertion-ordered dictionary: an existing key keeps its
  place, a new key goes to the end.
\<close>

fun dict_set :: "'k \<Rightarrow> 'v \<Rightarrow> ('k \<times> 'v) list \<Rightarrow> ('k \<times> 'v) list" where
  "dict_set k v [] = [(k, v)]"
| "dict_set k v ((k', v') # kvs) =
     (if k' = k then (k, v) # kvs else (k', v') # dict_set k v kvs)"

text \<open>
  The case of ASCII letters. \<open>ascii_upper\<close> moves the letters \<open>a\<close> to \<open>z\<close> to \<open>A\<close>
  to \<open>Z\<close> and keeps every other character, \<open>ascii_lower\<close> goes the other way. On a
  string of ASCII letters \<open>ascii_upper\<close> is what \<^verbatim>\<open>str.upper\<close> computes; on other
  strings \<^verbatim>\<open>str.upper\<close> follows the Unicode case mapping, which is not modelled:
  the code's \<^verbatim>\<open>method.upper()\<close> is an argument \<open>upper\<close> of the model. The two
  functions here serve to say that two strings differ in the case of ASCII letters
  only, and to evaluate the examples.
\<close>

definition lower_letters :: string where
  "lower_letters = ''abcdefghijklmnopqrstuvwxyz''"

definition upper_letters :: string where
  "upper_letters = ''ABCDEFGHIJKLMNOPQRSTUVWXYZ''"

definition upper_char :: "char \<Rightarrow> char" where
  "upper_char c =
     (case map_of (zip lower_letters upper_letters) c of None \<Rightarrow> c | Some u \<Rightarrow> u)"

definition ascii_upper :: "string \<Rightarrow> string" where
  "ascii_upper s = map upper_char s"

definition lower_char :: "char \<Rightarrow> char" where
  "lower_char c =
     (case map_of (zip upper_letters lower_letters) c of None \<Rightarrow> c | Some l \<Rightarrow> l)"

definition ascii_lower :: "string \<Rightarrow> string" where
  "ascii_lower s = map lower_char s"

definition ascii_letters :: string where
  "ascii_letters = lower_letters @ upper_letters"

section \<open>The transport: \<^verbatim>\<open>AsyncHTTPAPI._send\<close>\<close>

text \<open>
  The session object (\<^verbatim>\<open>__init__\<close>, lines 27 to 32): base URL and optional token.
  The HTTP client handle is a separate argument of the model.
\<close>

record session =
  base_url :: string
  token :: "string option"

text \<open>
  The body handed to the HTTP client is either the text produced by
  \<^verbatim>\<open>json.dumps\<close> or the caller's value as it came.
\<close>

datatype payload = Serialized string | Unserialized json

record request =
  req_method :: string
  endpoint :: string
  params :: "(string \<times> string) list"
  data :: payload
  headers :: "(string \<times> string) list"

text \<open>
  What the code reads from a response: the status, the body as text
  (\<^verbatim>\<open>response.text()\<close>) and the body decoded as JSON (\<^verbatim>\<open>response.json()\<close>,
  \<open>None\<close> when the decoding raises).
\<close>

record response =
  status :: int
  body_text :: string
  body_json :: "json option"

text \<open>
  The observable effects of a call are the requests it issues and the durations it
  sleeps. The world is the one trace of these effects, in the order in which they
  happen; \<open>requests\<close> reads the requests off a trace.
\<close>

datatype effect = Request request | Sleep rat

type_synonym world = "effect list"

fun requests :: "world \<Rightarrow> request list" where
  "requests [] = []"
| "requests (Request r # w) = r # requests w"
| "requests (Sleep d # w) = requests w"

text \<open>
  The HTTP client is the environment: \<open>client n r\<close> is the response to request \<open>r\<close>
  when \<open>n\<close> requests have been issued on the session before it.
\<close>

type_synonym http_client = "nat \<Rightarrow> request \<Rightarrow> response"

definition supported_methods :: "string list" where
  "supported_methods = [''GET'', ''PUT'', ''DELETE'', ''POST'']"

text \<open>
  Lines 41 to 60 of \<^verbatim>\<open>_send\<close>: defaults, method check, content type, token,
  endpoint and serialisation. \<open>upper\<close> stands for \<^verbatim>\<open>str.upper\<close> (line 48) and
  \<open>dumps\<close> for \<^verbatim>\<open>json.dumps\<close> of the standard library (line 60). The result is
  the request that the loop issues, or the \<^verbatim>\<open>MatrixError\<close> of line 50.
\<close>

definition prepare ::
  "(string \<Rightarrow> string) \<Rightarrow> (json \<Rightarrow> string) \<Rightarrow> session \<Rightarrow> string \<Rightarrow> string \<Rightarrow> json \<Rightarrow>
   (string \<times> string) list option \<Rightarrow> (string \<times> string) list option \<Rightarrow> string \<Rightarrow>
   error + request" where
  "prepare upper dumps self method path content query_params hdrs api_path =
     (let content1 = (if \<not> truthy content then JObj [] else content);
          query_params1 = (case query_params of None \<Rightarrow> [] | Some q \<Rightarrow> q);
          headers1 = (case hdrs of None \<Rightarrow> [] | Some h \<Rightarrow> h);
          method1 = upper method
      in if method1 \<notin> set supported_methods
         then Inl (MatrixError (''Unsupported HTTP method: '' @ method1))
         else
           let headers2 = (if map_of headers1 ''Content-Type'' = None
                           then dict_set ''Content-Type'' ''application/json'' headers1
                           else headers1);
               query_params2 = (case token self of
                                  None \<Rightarrow> query_params1
                                | Some t \<Rightarrow> if t \<noteq> [] then dict_set ''access_token'' t query_params1
                                            else query_params1);
               endpoint1 = base_url self @ api_path @ path;
               content2 = (if map_of headers2 ''Content-Type'' = Some ''application/json''
                           then Serialized (dumps content1)
                           else Unserialized content1)
           in Inr \<lparr>req_method = method1, endpoint = endpoint1, params = query_params2,
                   data = content2, headers = headers2\<rparr>)"

text \<open>
  \<^verbatim>\<open>respjson['retry_after_ms'] / 1000\<close> (line 72): true division of a number by
  1000. The result is a float: the quotient rounded to the nearest double, and
  \<^verbatim>\<open>OverflowError\<close> when that is not finite, which is when the magnitude of the
  quotient reaches \<open>2 ^ 1024 - 2 ^ 970\<close>, halfway between the largest double and
  \<open>2 ^ 1024\<close>. Within the range the model keeps the quotient exact. A Boolean is an
  integer in Python; every other value raises \<^verbatim>\<open>TypeError\<close>.
\<close>

definition float_limit :: int where
  "float_limit = 2 ^ 1024 - 2 ^ 970"

fun div_1000 :: "json \<Rightarrow> error + rat" where
  "div_1000 (JInt i) =
     (if 1000 * float_limit \<le> \<bar>i\<bar> then Inl OverflowError else Inr (of_int i / 1000))"
| "div_1000 (JBool b) = Inr ((if b then 1 else 0) / 1000)"
| "div_1000 _ = Inl TypeError"

text \<open>
  Lines 62 to 77: the \<^verbatim>\<open>while True\<close> loop. Nothing bounds the number of
  rounds, so the loop is a partial function: \<open>None\<close> is the call that never
  returns, \<open>Some\<close> carries the value returned or the exception raised, with the
  trace after the call. Each pass appends its request to the trace, and a
  rate-limited pass appends its sleep after it.
\<close>

partial_function (option) send_loop ::
  "http_client \<Rightarrow> request \<Rightarrow> world \<Rightarrow> ((error + json) \<times> world) option" where
  "send_loop client req w =
     (let r = client (length (requests w)) req;
          w1 = w @ [Request req]
      in if status r = 429 then
           (case body_json r of
              None \<Rightarrow> Some (Inl JSONDecodeError, w1)
            | Some respjson \<Rightarrow>
                (case subscript respjson ''retry_after_ms'' of
                   Inl e \<Rightarrow> Some (Inl e, w1)
                 | Inr v \<Rightarrow>
                     (case div_1000 v of
                        Inl e \<Rightarrow> Some (Inl e, w1)
                      | Inr d \<Rightarrow> send_loop client req (w1 @ [Sleep d]))))
         else if status r < 200 \<or> status r \<ge> 300 then
           Some (Inl (MatrixRequestError (status r) (body_text r)), w1)
         else
           (case body_json r of
              None \<Rightarrow> Some (Inl JSONDecodeError, w1)
            | Some j \<Rightarrow> Some (Inr j, w1)))"

text \<open>\<^verbatim>\<open>_send\<close> as a whole (lines 34 to 77).\<close>

definition send ::
  "http_client \<Rightarrow> (string \<Rightarrow> string) \<Rightarrow> (json \<Rightarrow> string) \<Rightarrow> session \<Rightarrow> string \<Rightarrow> string \<Rightarrow> json \<Rightarrow>
   (string \<times> string) list option \<Rightarrow> (string \<times> string) list option \<Rightarrow> string \<Rightarrow>
   world \<Rightarrow> ((error + json) \<times> world) option" where
  "send client upper dumps self method path content query_params hdrs api_path w =
     (case prepare upper dumps self method path content query_params hdrs api_path of
        Inl e \<Rightarrow> Some (Inl e, w)
      | Inr req \<Rightarrow> send_loop client req w)"

section \<open>Profile and room lookups\<close>

text \<open>
  \<^verbatim>\<open>get_room_id\<close> (lines 94 to 108). \<open>quote\<close> stands for
  \<^verbatim>\<open>urllib.parse.quote\<close>. The omitted arguments of \<^verbatim>\<open>_send\<close> take their
  default \<^verbatim>\<open>None\<close>.
\<close>

definition get_room_id ::
  "http_client \<Rightarrow> (string \<Rightarrow> string) \<Rightarrow> (json \<Rightarrow> string) \<Rightarrow> (string \<Rightarrow> string) \<Rightarrow>
   session \<Rightarrow> string \<Rightarrow> world \<Rightarrow> ((error + json) \<times> world) option" where
  "get_room_id client upper dumps quote self room_alias w =
     (case send client upper dumps self ''GET'' (''/directory/room/'' @ quote room_alias)
             JNull None None ''/_matrix/client/r0'' w of
        None \<Rightarrow> None
      | Some (Inl e, w1) \<Rightarrow> Some (Inl e, w1)
      | Some (Inr content, w1) \<Rightarrow> Some (dict_get content ''room_id'', w1))"

text \<open>\<^verbatim>\<open>room_id.startswith('#')\<close> (line 112).\<close>

fun startswith_hash :: "string \<Rightarrow> bool" where
  "startswith_hash [] = False"
| "startswith_hash (c # cs) = (c = CHR ''#'')"

text \<open>
  What a \<^verbatim>\<open>for\<close> loop iterates over: the elements of a list, the keys of a
  dictionary, the characters of a string; the other values are not iterable.
\<close>

fun iterate :: "json \<Rightarrow> error + json list" where
  "iterate (JArr es) = Inr es"
| "iterate (JObj kvs) = Inr (map (\<lambda>kv. JStr (fst kv)) kvs)"
| "iterate (JStr s) = Inr (map (\<lambda>c. JStr [c]) s)"
| "iterate _ = Inl TypeError"

text \<open>
  The loop of lines 117 to 119. Falling off the end of the loop is falling off the
  end of the function, which returns \<^verbatim>\<open>None\<close>.
\<close>

fun member_loop :: "json list \<Rightarrow> string \<Rightarrow> error + json" where
  "member_loop [] user_id = Inr JNull"
| "member_loop (mem # members) user_id =
     (case subscript mem ''sender'' of
        Inl e \<Rightarrow> Inl e
      | Inr s \<Rightarrow>
          if s = JStr user_id then
            (case subscript mem ''content'' of
               Inl e \<Rightarrow> Inl e
             | Inr c \<Rightarrow> subscript c ''displayname'')
          else member_loop members user_id)"

text \<open>
  \<^verbatim>\<open>get_room_displayname\<close> (lines 110 to 119). \<^verbatim>\<open>get_room_members\<close> is
  inherited from \<^verbatim>\<open>MatrixHttpApi\<close> of the \<^verbatim>\<open>matrix_client\<close> library and is an
  argument of the model: it takes the room identifier (whatever \<^verbatim>\<open>get_room_id\<close>
  returned when the room was given by alias) and the world.
\<close>

definition get_room_displayname ::
  "http_client \<Rightarrow> (string \<Rightarrow> string) \<Rightarrow> (json \<Rightarrow> string) \<Rightarrow> (string \<Rightarrow> string) \<Rightarrow>
   (json \<Rightarrow> world \<Rightarrow> ((error + json) \<times> world) option) \<Rightarrow> session \<Rightarrow> string \<Rightarrow> string \<Rightarrow>
   world \<Rightarrow> ((error + json) \<times> world) option" where
  "get_room_displayname client upper dumps quote get_room_members self room_id user_id w =
     (case (if startswith_hash room_id
            then get_room_id client upper dumps quote self room_id w
            else Some (Inr (JStr room_id), w)) of
        None \<Rightarrow> None
      | Some (Inl e, w1) \<Rightarrow> Some (Inl e, w1)
      | Some (Inr room_id1, w1) \<Rightarrow>
          (case get_room_members room_id1 w1 of
             None \<Rightarrow> None
           | Some (Inl e, w2) \<Rightarrow> Some (Inl e, w2)
           | Some (Inr members, w2) \<Rightarrow>
               (case subscript members ''chunk'' of
                  Inl e \<Rightarrow> Some (Inl e, w2)
                | Inr chunk \<Rightarrow>
                    (case iterate chunk of
                       Inl e \<Rightarrow> Some (Inl e, w2)
                     | Inr mems \<Rightarrow> Some (member_loop mems user_id, w2)))))"

section \<open>The event bridge: \<^verbatim>\<open>MatrixEventCreator.create_event\<close>\<close>

text \<open>
  Modelled from the spec: the domain events of
  \<^verbatim>\<open>opsdroid.events\<close>, which the tests import and whose source is not among the
  files at hand. Section 3 of the specification gives the closed set of variants
  and section 4.2 the fields of each.
\<close>

datatype variant =
    Message json
  | EditedMessage json json
  | File json
  | Image json
  | RoomName json
  | RoomDescription json
  | Reaction json json

record domain_event =
  variant :: variant
  user :: json
  user_id :: json
  target :: string
  event_id :: json
  raw_event :: json

text \<open>
  Modelled from the spec: reading a field of a wire event. The specification names
  the fields and does not say what a missing one yields; the model reads it as
  none, so that an event without a dispatch key falls under "anything else".
\<close>

fun field :: "json \<Rightarrow> string \<Rightarrow> json" where
  "field (JObj kvs) k = (case map_of kvs k of None \<Rightarrow> JNull | Some v \<Rightarrow> v)"
| "field _ k = JNull"

text \<open>
  Modelled from the spec: the dispatch table of section 4.2 of
  \<^verbatim>\<open>create_event\<close> in \<^verbatim>\<open>opsdroid/connector/matrix/create_events.py\<close>, of
  which only the tests are at hand. The key is the type, and for room messages the
  message type; \<open>get_download_url\<close> is the media URL resolver of the connection.
\<close>

definition dispatch :: "(json \<Rightarrow> json) \<Rightarrow> json \<Rightarrow> variant option" where
  "dispatch get_download_url wire_event =
     (let content = field wire_event ''content'';
          relates_to = field content ''m.relates_to''
      in if field wire_event ''type'' = JStr ''m.room.message'' then
           (if field content ''msgtype'' = JStr ''m.text'' then
              (if field relates_to ''rel_type'' = JStr ''m.replace''
               then Some (EditedMessage (field (field content ''m.new_content'') ''body'')
                                        (field relates_to ''event_id''))
               else Some (Message (field content ''body'')))
            else if field content ''msgtype'' = JStr ''m.file'' then
              Some (File (get_download_url (field content ''url'')))
            else if field content ''msgtype'' = JStr ''m.image'' then
              Some (Image (get_download_url (field content ''url'')))
            else None)
         else if field wire_event ''type'' = JStr ''m.room.name'' then
           Some (RoomName (field content ''name''))
         else if field wire_event ''type'' = JStr ''m.room.topic'' then
           Some (RoomDescription (field content ''topic''))
         else if field wire_event ''type'' = JStr ''m.reaction'' then
           Some (Reaction (field relates_to ''key'') (field relates_to ''event_id''))
         else None)"

text \<open>
  Modelled from the spec: \<^verbatim>\<open>create_event(wire_event, target)\<close> of
  \<^verbatim>\<open>opsdroid/connector/matrix/create_events.py\<close>, of which only the tests are
  at hand. An unrecognised event is the result none, with no enrichment call; a
  recognised one makes one call to the enrichment collaborator \<open>get_display_name\<close>
  with the sender, whose failure propagates.
\<close>

definition create_event ::
  "(json \<Rightarrow> error + json) \<Rightarrow> (json \<Rightarrow> json) \<Rightarrow> json \<Rightarrow> string \<Rightarrow>
   error + domain_event option" where
  "create_event get_display_name get_download_url wire_event tgt =
     (case dispatch get_download_url wire_event of
        None \<Rightarrow> Inr None
      | Some v \<Rightarrow>
          (case get_display_name (field wire_event ''sender'') of
             Inl e \<Rightarrow> Inl e
           | Inr nick \<Rightarrow>
               Inr (Some \<lparr>variant = v, user = nick, user_id = field wire_event ''sender'',
                           target = tgt, event_id = field wire_event ''event_id'',
                           raw_event = wire_event\<rparr>)))"

text \<open>The recognised dispatch keys of the table.\<close>

definition recognized_types :: "string list" where
  "recognized_types = [''m.room.message'', ''m.room.name'', ''m.room.topic'', ''m.reaction'']"

definition recognized_msgtypes :: "string list" where
  "recognized_msgtypes = [''m.text'', ''m.file'', ''m.image'']"

section \<open>Example sessions\<close>

text \<open>
  Concrete sessions, servers and events on which the theorems below are evaluated.
  \<open>example_dumps\<close> agrees with \<^verbatim>\<open>json.dumps\<close> on the empty dictionary, the only
  body the examples send, and the methods of the examples are ASCII letters, on
  which \<open>ascii_upper\<close> is \<^verbatim>\<open>str.upper\<close>.
\<close>

definition example_dumps :: "json \<Rightarrow> string" where
  "example_dumps j = (if j = JObj [] then ''{}'' else ''null'')"

definition example_session :: session where
  "example_session = \<lparr>base_url = ''https://matrix.org'', token = Some ''secret''\<rparr>"

definition example_request :: "string \<Rightarrow> request" where
  "example_request m =
     \<lparr>req_method = m,
      endpoint = ''https://matrix.org/_matrix/client/r0/profile/@neo:matrix.org/displayname'',
      params = [(''access_token'', ''secret'')], data = Serialized ''{}'',
      headers = [(''Content-Type'', ''application/json'')]\<rparr>"

text \<open>A server that limits the first request and answers the second.\<close>

definition limited_once :: http_client where
  "limited_once n r =
     (if n = 0
      then \<lparr>status = 429, body_text = ''slow down'',
            body_json = Some (JObj [(''retry_after_ms'', JInt 50)])\<rparr>
      else \<lparr>status = 200, body_text = ''neo'',
            body_json = Some (JObj [(''displayname'', JStr ''Neo'')])\<rparr>)"

text \<open>A server that refuses every request, with a body that is valid JSON.\<close>

definition forbidden :: http_client where
  "forbidden n r =
     \<lparr>status = 403, body_text = ''no entry'',
      body_json = Some (JObj [(''errcode'', JStr ''M_FORBIDDEN'')])\<rparr>"

text \<open>A server whose second rate-limit answer has no \<^verbatim>\<open>retry_after_ms\<close>.\<close>

definition limited_malformed :: http_client where
  "limited_malformed n r =
     (if n = 0
      then \<lparr>status = 429, body_text = ''slow down'',
            body_json = Some (JObj [(''retry_after_ms'', JInt 50)])\<rparr>
      else \<lparr>status = 429, body_text = ''slow down'',
            body_json = Some (JObj [(''error'', JStr ''Too Many Requests'')])\<rparr>)"

definition always_ok :: http_client where
  "always_ok n r =
     \<lparr>status = 200, body_text = ''neo'',
      body_json = Some (JObj [(''displayname'', JStr ''Neo'')])\<rparr>"

text \<open>A server whose rate-limit answer asks for a wait beyond every float.\<close>

definition limited_beyond_float :: http_client where
  "limited_beyond_float n r =
     \<lparr>status = 429, body_text = ''slow down'',
      body_json = Some (JObj [(''retry_after_ms'', JInt (10 ^ 312))])\<rparr>"

definition world0 :: world where
  "world0 = []"

text \<open>A room-member listing in which one user occurs twice.\<close>

definition example_members :: json where
  "example_members =
     JObj [(''chunk'', JArr
       [JObj [(''sender'', JStr ''@trinity:matrix.org''),
              (''content'', JObj [(''displayname'', JStr ''Trinity'')])],
        JObj [(''sender'', JStr ''@neo:matrix.org''),
              (''content'', JObj [(''displayname'', JStr ''Neo'')])],
        JObj [(''sender'', JStr ''@neo:matrix.org''),
              (''content'', JObj [(''displayname'', JStr ''The One'')])]])]"

definition example_get_room_members ::
  "json \<Rightarrow> world \<Rightarrow> ((error + json) \<times> world) option" where
  "example_get_room_members room_id w = Some (Inr example_members, w)"

text \<open>A server that resolves every room alias to the same room.\<close>

definition directory :: http_client where
  "directory n r =
     \<lparr>status = 200, body_text = ''room'',
      body_json = Some (JObj [(''room_id'', JStr ''!MeRdFpEonLoCwhoHeT:matrix.org'')])\<rparr>"

definition directory_request :: request where
  "directory_request =
     \<lparr>req_method = ''GET'',
      endpoint = ''https://matrix.org/_matrix/client/r0/directory/room/#matrix:matrix.org'',
      params = [(''access_token'', ''secret'')], data = Serialized ''{}'',
      headers = [(''Content-Type'', ''application/json'')]\<rparr>"

text \<open>
  The room message of the test suite (\<^verbatim>\<open>message_json\<close>), with its type and
  message type as arguments, so that the tests that overwrite them are instances.
\<close>

definition message_json :: "string \<Rightarrow> string \<Rightarrow> json" where
  "message_json ty msgtype =
     JObj [(''content'', JObj [(''body'', JStr ''I just did it manually.''),
                               (''msgtype'', JStr msgtype)]),
           (''event_id'', JStr ''$15573463541827394vczPd:matrix.org''),
           (''origin_server_ts'', JInt 1557346354253),
           (''room_id'', JStr ''!MeRdFpEonLoCwhoHeT:matrix.org''),
           (''sender'', JStr ''@neo:matrix.org''),
           (''type'', JStr ty),
           (''unsigned'', JObj [(''age'', JInt 48926251)]),
           (''user_id'', JStr ''@nso:matrix.org''),
           (''age'', JInt 48926251)]"

text \<open>
  Two enrichment collaborators, one that knows the sender and one that fails, and
  the media URL resolver of the tests.
\<close>

definition rabbit_hole :: "json \<Rightarrow> error + json" where
  "rabbit_hole sender = Inr (JStr ''Rabbit Hole'')"

definition no_nick :: "json \<Rightarrow> error + json" where
  "no_nick sender = Inl (MatrixRequestError 404 ''not found'')"

definition aurl :: "json \<Rightarrow> json" where
  "aurl mxc = JStr ''mxc://aurl''"

section \<open>Basic facts\<close>

lemmas case_defs =
  ascii_upper_def upper_char_def ascii_lower_def lower_char_def lower_letters_def
  upper_letters_def

lemma upper_lower_char: "upper_char (lower_char c) = upper_char c"
proof (cases "c \<in> set upper_letters")
  case True
  then show ?thesis
    unfolding upper_letters_def by (auto simp: case_defs)
next
  case False
  then have "map_of (zip upper_letters lower_letters) c = None"
    by (simp add: map_of_eq_None_iff upper_letters_def lower_letters_def)
  then show ?thesis by (simp add: lower_char_def)
qed

lemma ascii_upper_lower: "ascii_upper (ascii_lower s) = ascii_upper s"
  by (simp add: ascii_upper_def ascii_lower_def upper_lower_char)

lemma ascii_upper_supported: "s \<in> set supported_methods \<Longrightarrow> ascii_upper s = s"
  by (auto simp: supported_methods_def case_defs)

text \<open>
  A string that differs from a supported method in the case of ASCII letters only
  consists of ASCII letters.
\<close>

lemma supported_letters: "s \<in> set supported_methods \<Longrightarrow> set s \<subseteq> set upper_letters"
  by (auto simp: supported_methods_def upper_letters_def)

lemma lower_char_upper_letter: "c \<in> set upper_letters \<Longrightarrow> lower_char c \<in> set lower_letters"
  unfolding upper_letters_def by (auto simp: case_defs)

lemma lower_char_letter:
  assumes "lower_char c \<in> set lower_letters"
  shows "c \<in> set ascii_letters"
proof (cases "c \<in> set upper_letters")
  case True
  then show ?thesis by (simp add: ascii_letters_def)
next
  case False
  then have "map_of (zip upper_letters lower_letters) c = None"
    by (simp add: map_of_eq_None_iff upper_letters_def lower_letters_def)
  then have "lower_char c = c" by (simp add: lower_char_def)
  with assms show ?thesis by (simp add: ascii_letters_def)
qed

lemma case_variant_letters:
  assumes "s \<in> set supported_methods" and "ascii_lower method = ascii_lower s"
  shows "set method \<subseteq> set ascii_letters"
proof
  fix c
  assume "c \<in> set method"
  then have "lower_char c \<in> set (ascii_lower method)"
    by (simp add: ascii_lower_def)
  then have "lower_char c \<in> set (ascii_lower s)"
    by (simp add: assms(2))
  then obtain d where d: "d \<in> set s" and c: "lower_char c = lower_char d"
    by (auto simp: ascii_lower_def)
  from d supported_letters [OF assms(1)] have "d \<in> set upper_letters"
    by auto
  then have "lower_char c \<in> set lower_letters"
    unfolding c by (rule lower_char_upper_letter)
  then show "c \<in> set ascii_letters"
    by (rule lower_char_letter)
qed

lemma subscript_error: "subscript j k = Inl e \<Longrightarrow> e = KeyError k \<or> e = TypeError"
  by (cases j) (auto split: option.splits)

lemma div_1000_error: "div_1000 v = Inl e \<Longrightarrow> e = TypeError \<or> e = OverflowError"
  by (cases v) (auto split: if_splits)

lemma map_of_dict_set: "map_of (dict_set k v kvs) = (map_of kvs)(k \<mapsto> v)"
  by (induction kvs) (auto simp: fun_eq_iff)

text \<open>The requests of a trace, and of a run of rate-limited rounds.\<close>

lemma requests_append: "requests (w @ v) = requests w @ requests v"
  by (induction w rule: requests.induct) simp_all

lemma requests_rounds:
  "requests (concat (map (\<lambda>i. [Request req, Sleep (d i)]) [0..<k])) = replicate k req"
  by (induction k) (simp_all add: requests_append replicate_append_same)

section \<open>The retry loop, one round at a time\<close>

text \<open>
  A well-formed rate-limit answer, with a wait in the range of floats: the loop
  issues the request, sleeps, and goes round again.
\<close>

lemma send_loop_retry:
  assumes "status (client (length (requests w)) req) = 429"
    and "body_json (client (length (requests w)) req) = Some (JObj kvs)"
    and "map_of kvs ''retry_after_ms'' = Some (JInt ms)"
    and "\<bar>ms\<bar> < 1000 * float_limit"
  shows "send_loop client req w =
         send_loop client req (w @ [Request req, Sleep (of_int ms / 1000)])"
proof -
  have "\<not> 1000 * float_limit \<le> \<bar>ms\<bar>"
    using assms(4) by simp
  then show ?thesis
    by (subst send_loop.simps) (simp add: assms(1-3) Let_def)
qed

text \<open>Any number \<open>k\<close> of such answers in a row: \<open>k\<close> rounds, by induction on \<open>k\<close>.\<close>

lemma send_loop_rounds:
  assumes "\<forall>i<k. status (client (length (requests w) + i) req) = 429 \<and>
             (\<exists>kvs. body_json (client (length (requests w) + i) req) = Some (JObj kvs) \<and>
                    map_of kvs ''retry_after_ms'' = Some (JInt (ms i))) \<and>
             \<bar>ms i\<bar> < 1000 * float_limit"
  shows "send_loop client req w =
         send_loop client req
           (w @ concat (map (\<lambda>i. [Request req, Sleep (of_int (ms i) / 1000)]) [0..<k]))"
  using assms
proof (induction k)
  case 0
  then show ?case by simp
next
  case (Suc k)
  let ?wk = "w @ concat (map (\<lambda>i. [Request req, Sleep (of_int (ms i) / 1000)]) [0..<k])"
  have len: "length (requests ?wk) = length (requests w) + k"
    by (simp add: requests_append requests_rounds)
  have first: "send_loop client req w = send_loop client req ?wk"
    using Suc by simp
  from Suc.prems obtain kvs where
    st: "status (client (length (requests w) + k) req) = 429" and
    bj: "body_json (client (length (requests w) + k) req) = Some (JObj kvs)" and
    ra: "map_of kvs ''retry_after_ms'' = Some (JInt (ms k))" and
    bd: "\<bar>ms k\<bar> < 1000 * float_limit"
    by blast
  have "send_loop client req ?wk =
        send_loop client req (?wk @ [Request req, Sleep (of_int (ms k) / 1000)])"
    by (rule send_loop_retry [where kvs = kvs]) (simp_all only: len st bj ra bd)
  then show ?case
    using first by simp
qed

lemma send_loop_ok:
  assumes "200 \<le> status (client (length (requests w)) req)"
    and "status (client (length (requests w)) req) < 300"
    and "body_json (client (length (requests w)) req) = Some j"
  shows "send_loop client req w = Some (Inr j, w @ [Request req])"
  using assms by (subst send_loop.simps) (simp add: Let_def)

lemma send_loop_request_error:
  assumes "status (client (length (requests w)) req) \<noteq> 429"
    and "status (client (length (requests w)) req) < 200 \<or>
         300 \<le> status (client (length (requests w)) req)"
  shows "send_loop client req w =
         Some (Inl (MatrixRequestError (status (client (length (requests w)) req))
                                       (body_text (client (length (requests w)) req))),
               w @ [Request req])"
  using assms by (subst send_loop.simps) (simp add: Let_def)

lemma send_loop_no_field:
  assumes "status (client (length (requests w)) req) = 429"
    and "body_json (client (length (requests w)) req) = Some (JObj kvs)"
    and "map_of kvs ''retry_after_ms'' = None"
  shows "send_loop client req w =
         Some (Inl (KeyError ''retry_after_ms''), w @ [Request req])"
  using assms by (subst send_loop.simps) (simp add: Let_def)

text \<open>
  A rate-limit answer whose wait is beyond the floats: the division of line 72
  raises, after the request and before any sleep.
\<close>

lemma send_loop_overflow:
  assumes "status (client (length (requests w)) req) = 429"
    and "body_json (client (length (requests w)) req) = Some (JObj kvs)"
    and "map_of kvs ''retry_after_ms'' = Some (JInt ms)"
    and "1000 * float_limit \<le> \<bar>ms\<bar>"
  shows "send_loop client req w = Some (Inl OverflowError, w @ [Request req])"
  using assms by (subst send_loop.simps) (simp add: Let_def)

lemma example_beyond_float:
  "send_loop limited_beyond_float (example_request ''GET'') world0 =
   Some (Inl OverflowError, [Request (example_request ''GET'')])"
proof -
  have big: "1000 * float_limit \<le> \<bar>10 ^ 312\<bar>"
    by (simp add: float_limit_def)
  have "send_loop limited_beyond_float (example_request ''GET'') world0 =
        Some (Inl OverflowError, world0 @ [Request (example_request ''GET'')])"
    by (rule send_loop_overflow [where kvs = "[(''retry_after_ms'', JInt (10 ^ 312))]"
          and ms = "10 ^ 312", OF _ _ _ big])
       (simp_all add: limited_beyond_float_def)
  then show ?thesis by (simp add: world0_def)
qed

lemma send_prepared:
  "prepare upper dumps self method path content query_params hdrs api_path = Inr req \<Longrightarrow>
   send client upper dumps self method path content query_params hdrs api_path w =
   send_loop client req w"
  by (simp add: send_def)

text \<open>
  Whenever the loop returns, it has issued the one request it was given, at least
  once and nothing else, and what it raises is never the \<^verbatim>\<open>MatrixError\<close> of the
  method check. The proof is by induction over the unfolding of the loop.
\<close>

lemma send_loop_trace:
  "send_loop client req w = Some y \<Longrightarrow>
   (\<exists>k. requests (snd y) = requests w @ replicate (Suc k) req) \<and>
   (\<forall>m. fst y \<noteq> Inl (MatrixError m))"
proof (induction rule: send_loop.raw_induct [rotated 1, consumes 1])
  case (1 loop client req w y)
  note IH = 1(1) and body = 1(2)
  let ?r = "client (length (requests w)) req"
  show ?case
  proof (cases "\<exists>j v d. status ?r = 429 \<and> body_json ?r = Some j \<and>
                  subscript j ''retry_after_ms'' = Inr v \<and> div_1000 v = Inr d")
    case True
    then obtain j v d where h: "status ?r = 429" "body_json ?r = Some j"
        "subscript j ''retry_after_ms'' = Inr v" "div_1000 v = Inr d"
      by blast
    from h body have "loop client req ((w @ [Request req]) @ [Sleep d]) = Some y"
      by (simp add: Let_def)
    from IH [OF this] obtain k where
      k: "requests (snd y) = requests ((w @ [Request req]) @ [Sleep d]) @ replicate (Suc k) req"
      and nm: "\<forall>m. fst y \<noteq> Inl (MatrixError m)"
      by auto
    from k have "requests (snd y) = requests w @ replicate (Suc (Suc k)) req"
      by (simp add: requests_append)
    with nm show ?thesis by blast
  next
    case False
    with body have "requests (snd y) = requests w @ replicate (Suc 0) req \<and>
        (\<forall>m. fst y \<noteq> Inl (MatrixError m))"
      by (auto simp: Let_def requests_append split: if_splits option.splits sum.splits
               dest: subscript_error div_1000_error)
    then show ?thesis by blast
  qed
qed

lemma example_prepare:
  "prepare ascii_upper example_dumps example_session ''get''
     ''/profile/@neo:matrix.org/displayname'' JNull None None ''/_matrix/client/r0'' =
   Inr (example_request ''GET'')"
  by (simp add: prepare_def example_dumps_def example_session_def example_request_def
        supported_methods_def case_defs Let_def)

section \<open>Rate limiting and failures of the transport\<close>

text \<open>
  C1. Let \<open>req\<close> be the request that \<^verbatim>\<open>_send\<close> builds from its arguments. If the
  server answers the first \<open>k\<close> attempts with status 429 and a JSON object whose
  \<^verbatim>\<open>retry_after_ms\<close> is the integer \<open>ms i\<close>, with \<open>ms i / 1000\<close> in the range of
  floats, and the next attempt with a status in \<open>[200, 300)\<close> and the JSON body
  \<open>j\<close>, then the call returns \<open>j\<close>, and what it has done is, in this order: for each
  \<open>i < k\<close> the request \<open>req\<close> followed by a sleep of \<open>ms i / 1000\<close> seconds, and
  then \<open>req\<close> once more. So every sleep comes between the rate-limited attempt and
  the next issue of the same request. This holds for every \<open>k\<close>: no budget, no cap.
  With \<open>k = 1\<close> it is two physical attempts.
\<close>

theorem send_rate_limited_then_ok:
  assumes "prepare upper dumps self method path content query_params hdrs api_path = Inr req"
    and "\<forall>i<k. status (client (length (requests w) + i) req) = 429 \<and>
           (\<exists>kvs. body_json (client (length (requests w) + i) req) = Some (JObj kvs) \<and>
                  map_of kvs ''retry_after_ms'' = Some (JInt (ms i))) \<and>
           \<bar>ms i\<bar> < 1000 * float_limit"
    and "200 \<le> status (client (length (requests w) + k) req)"
    and "status (client (length (requests w) + k) req) < 300"
    and "body_json (client (length (requests w) + k) req) = Some j"
  shows "send client upper dumps self method path content query_params hdrs api_path w =
         Some (Inr j,
               w @ concat (map (\<lambda>i. [Request req, Sleep (of_int (ms i) / 1000)]) [0..<k]) @
                   [Request req])"
proof -
  let ?wk = "w @ concat (map (\<lambda>i. [Request req, Sleep (of_int (ms i) / 1000)]) [0..<k])"
  have len: "length (requests ?wk) = length (requests w) + k"
    by (simp add: requests_append requests_rounds)
  have "send client upper dumps self method path content query_params hdrs api_path w =
        send_loop client req w"
    using assms(1) by (rule send_prepared)
  also have "\<dots> = send_loop client req ?wk"
    using assms(2) by (rule send_loop_rounds)
  also have "\<dots> = Some (Inr j, ?wk @ [Request req])"
    by (rule send_loop_ok) (simp_all only: len assms(3-5))
  finally show ?thesis
    by simp
qed

text \<open>
  The example of the specification: one 429 with \<^verbatim>\<open>retry_after_ms = 50\<close>, then a
  200. The request, a sleep of a twentieth of a second, the same request again.
\<close>

theorem send_rate_limited_then_ok_witness:
  "send limited_once ascii_upper example_dumps example_session ''get''
     ''/profile/@neo:matrix.org/displayname'' JNull None None ''/_matrix/client/r0'' world0 =
   Some (Inr (JObj [(''displayname'', JStr ''Neo'')]),
         [Request (example_request ''GET''), Sleep (1 / 20), Request (example_request ''GET'')])"
  using send_rate_limited_then_ok [where client = limited_once and k = 1 and ms = "\<lambda>i. 50"
      and w = world0 and j = "JObj [(''displayname'', JStr ''Neo'')]", OF example_prepare]
  by (simp add: limited_once_def world0_def float_limit_def)

text \<open>
  C2. If the answer to the first attempt has a status outside \<open>[200, 300)\<close> other
  than 429, the call raises \<^verbatim>\<open>MatrixRequestError\<close> with that status and the body
  as text, after this one attempt: the trace has grown by the one request, and by
  no sleep.
\<close>

theorem send_request_error:
  assumes "prepare upper dumps self method path content query_params hdrs api_path = Inr req"
    and "status (client (length (requests w)) req) \<noteq> 429"
    and "status (client (length (requests w)) req) < 200 \<or>
         300 \<le> status (client (length (requests w)) req)"
  shows "send client upper dumps self method path content query_params hdrs api_path w =
         Some (Inl (MatrixRequestError (status (client (length (requests w)) req))
                                       (body_text (client (length (requests w)) req))),
               w @ [Request req])"
  using assms by (simp add: send_prepared send_loop_request_error)

theorem send_request_error_witness:
  "send forbidden ascii_upper example_dumps example_session ''get''
     ''/profile/@neo:matrix.org/displayname'' JNull None None ''/_matrix/client/r0'' world0 =
   Some (Inl (MatrixRequestError 403 ''no entry''), [Request (example_request ''GET'')])"
  using send_request_error [where client = forbidden and w = world0, OF example_prepare]
  by (simp add: forbidden_def world0_def)

text \<open>
  C3, as stated, fails: the method \<open>get\<close> is not one of \<open>GET\<close>, \<open>PUT\<close>,
  \<open>DELETE\<close>, \<open>POST\<close>, and the call issues a request and returns the answer.
  (\<open>get\<close> consists of ASCII letters, so its \<^verbatim>\<open>str.upper\<close> is \<open>ascii_upper\<close>.)
\<close>

theorem send_unsupported_method_counterexample:
  "''get'' \<notin> set supported_methods \<and>
   send always_ok ascii_upper example_dumps example_session ''get''
     ''/profile/@neo:matrix.org/displayname'' JNull None None ''/_matrix/client/r0'' world0 =
   Some (Inr (JObj [(''displayname'', JStr ''Neo'')]), [Request (example_request ''GET'')])"
proof -
  have "send_loop always_ok (example_request ''GET'') world0 =
        Some (Inr (JObj [(''displayname'', JStr ''Neo'')]),
              world0 @ [Request (example_request ''GET'')])"
    by (rule send_loop_ok) (simp_all add: always_ok_def)
  then show ?thesis
    by (simp add: send_prepared [OF example_prepare] world0_def supported_methods_def)
qed

text \<open>
  C3, amended. The check of line 49 is on \<^verbatim>\<open>method.upper()\<close>. For every method
  whose \<^verbatim>\<open>upper()\<close> is outside \<open>GET\<close>, \<open>PUT\<close>, \<open>DELETE\<close>, \<open>POST\<close>, whatever
  \<^verbatim>\<open>str.upper\<close> does to it, the call raises \<^verbatim>\<open>MatrixError\<close> with that upper-cased
  method in the message, and the trace is unchanged: no request was issued.
\<close>

theorem send_unsupported_method:
  assumes "upper method \<notin> set supported_methods"
  shows "send client upper dumps self method path content query_params hdrs api_path w =
         Some (Inl (MatrixError (''Unsupported HTTP method: '' @ upper method)), w)"
  using assms by (simp add: send_def prepare_def Let_def)

theorem send_unsupported_method_witness:
  "ascii_upper ''patch'' \<notin> set supported_methods \<and>
   send always_ok ascii_upper example_dumps example_session ''patch''
     ''/profile/@neo:matrix.org/displayname'' JNull None None ''/_matrix/client/r0'' world0 =
   Some (Inl (MatrixError ''Unsupported HTTP method: PATCH''), world0)"
proof -
  have u: "ascii_upper ''patch'' = ''PATCH''" by (simp add: case_defs)
  have h: "ascii_upper ''patch'' \<notin> set supported_methods"
    by (simp add: u supported_methods_def)
  show ?thesis
    using h send_unsupported_method [of ascii_upper "''patch''" always_ok example_dumps
        example_session "''/profile/@neo:matrix.org/displayname''" JNull None None
        "''/_matrix/client/r0''" world0, OF h]
    by (simp add: u)
qed

text \<open>
  C4. If, after any number \<open>k\<close> of well-formed rate-limit rounds, the server
  answers with status 429 and a JSON object that has no \<^verbatim>\<open>retry_after_ms\<close>, the
  call raises \<^verbatim>\<open>KeyError\<close> at once: that attempt is the last entry of the trace,
  no sleep follows it and no request.
\<close>

theorem send_rate_limit_without_field:
  assumes "prepare upper dumps self method path content query_params hdrs api_path = Inr req"
    and "\<forall>i<k. status (client (length (requests w) + i) req) = 429 \<and>
           (\<exists>kvs. body_json (client (length (requests w) + i) req) = Some (JObj kvs) \<and>
                  map_of kvs ''retry_after_ms'' = Some (JInt (ms i))) \<and>
           \<bar>ms i\<bar> < 1000 * float_limit"
    and "status (client (length (requests w) + k) req) = 429"
    and "body_json (client (length (requests w) + k) req) = Some (JObj kvs)"
    and "''retry_after_ms'' \<notin> fst ` set kvs"
  shows "send client upper dumps self method path content query_params hdrs api_path w =
         Some (Inl (KeyError ''retry_after_ms''),
               w @ concat (map (\<lambda>i. [Request req, Sleep (of_int (ms i) / 1000)]) [0..<k]) @
                   [Request req])"
proof -
  let ?wk = "w @ concat (map (\<lambda>i. [Request req, Sleep (of_int (ms i) / 1000)]) [0..<k])"
  have len: "length (requests ?wk) = length (requests w) + k"
    by (simp add: requests_append requests_rounds)
  have none: "map_of kvs ''retry_after_ms'' = None"
    using assms(5) by (simp add: map_of_eq_None_iff)
  have "send client upper dumps self method path content query_params hdrs api_path w =
        send_loop client req w"
    using assms(1) by (rule send_prepared)
  also have "\<dots> = send_loop client req ?wk"
    using assms(2) by (rule send_loop_rounds)
  also have "\<dots> = Some (Inl (KeyError ''retry_after_ms''), ?wk @ [Request req])"
    by (rule send_loop_no_field [where kvs = kvs]) (simp_all only: len assms(3,4) none)
  finally show ?thesis
    by simp
qed

theorem send_rate_limit_without_field_witness:
  "send limited_malformed ascii_upper example_dumps example_session ''get''
     ''/profile/@neo:matrix.org/displayname'' JNull None None ''/_matrix/client/r0'' world0 =
   Some (Inl (KeyError ''retry_after_ms''),
         [Request (example_request ''GET''), Sleep (1 / 20), Request (example_request ''GET'')])"
  using send_rate_limit_without_field [where client = limited_malformed and k = 1
      and ms = "\<lambda>i. 50" and w = world0 and kvs = "[(''error'', JStr ''Too Many Requests'')]",
      OF example_prepare]
  by (simp add: limited_malformed_def world0_def float_limit_def)

section \<open>The request that is issued\<close>

text \<open>With a supported method, lines 41 to 60 build this request.\<close>

lemma prepare_supported:
  assumes "upper method \<in> set supported_methods"
  shows "prepare upper dumps self method path content query_params hdrs api_path =
     Inr \<lparr>req_method = upper method,
          endpoint = base_url self @ api_path @ path,
          params = (case token self of
                      None \<Rightarrow> (case query_params of None \<Rightarrow> [] | Some q \<Rightarrow> q)
                    | Some t \<Rightarrow> if t \<noteq> []
                               then dict_set ''access_token'' t
                                      (case query_params of None \<Rightarrow> [] | Some q \<Rightarrow> q)
                               else (case query_params of None \<Rightarrow> [] | Some q \<Rightarrow> q)),
          data = (if map_of (if map_of (case hdrs of None \<Rightarrow> [] | Some h \<Rightarrow> h) ''Content-Type'' = None
                             then dict_set ''Content-Type'' ''application/json''
                                    (case hdrs of None \<Rightarrow> [] | Some h \<Rightarrow> h)
                             else (case hdrs of None \<Rightarrow> [] | Some h \<Rightarrow> h)) ''Content-Type''
                     = Some ''application/json''
                  then Serialized (dumps (if \<not> truthy content then JObj [] else content))
                  else Unserialized (if \<not> truthy content then JObj [] else content)),
          headers = (if map_of (case hdrs of None \<Rightarrow> [] | Some h \<Rightarrow> h) ''Content-Type'' = None
                     then dict_set ''Content-Type'' ''application/json''
                            (case hdrs of None \<Rightarrow> [] | Some h \<Rightarrow> h)
                     else (case hdrs of None \<Rightarrow> [] | Some h \<Rightarrow> h))\<rparr>"
  using assms by (simp add: prepare_def Let_def)

text \<open>
  C5. Whenever the method passes the check of line 49 (its \<^verbatim>\<open>upper()\<close> is one of
  the four methods, whatever \<^verbatim>\<open>str.upper\<close> does to it), \<^verbatim>\<open>_send\<close> is the retry
  loop on one request \<open>req\<close>, and every request a returning call has issued is
  \<open>req\<close>. In \<open>req\<close>: a configured token (one that passes the test
  \<^verbatim>\<open>if self.token\<close>, so neither \<^verbatim>\<open>None\<close> nor empty) is the query parameter
  \<^verbatim>\<open>access_token\<close>; the headers are the caller's, but for \<^verbatim>\<open>Content-Type\<close>, so
  the token is in no header; \<^verbatim>\<open>Content-Type\<close> is \<^verbatim>\<open>application/json\<close> when the
  caller gave none; and when it is \<^verbatim>\<open>application/json\<close> the body is the text that
  \<^verbatim>\<open>json.dumps\<close> makes of the content (of the empty dictionary when the
  content is omitted or falsy, lines 41 and 42).
\<close>

theorem send_request_shape:
  assumes "upper method \<in> set supported_methods"
  shows "\<exists>req. prepare upper dumps self method path content query_params hdrs api_path = Inr req \<and>
     send client upper dumps self method path content query_params hdrs api_path w =
       send_loop client req w \<and>
     (\<forall>y. send client upper dumps self method path content query_params hdrs api_path w = Some y \<longrightarrow>
          (\<exists>k. requests (snd y) = requests w @ replicate (Suc k) req)) \<and>
     (\<forall>t. token self = Some t \<and> t \<noteq> [] \<longrightarrow> map_of (params req) ''access_token'' = Some t) \<and>
     (\<forall>k. k \<noteq> ''Content-Type'' \<longrightarrow>
          map_of (headers req) k = map_of (case hdrs of None \<Rightarrow> [] | Some h \<Rightarrow> h) k) \<and>
     (map_of (case hdrs of None \<Rightarrow> [] | Some h \<Rightarrow> h) ''Content-Type'' = None \<longrightarrow>
          map_of (headers req) ''Content-Type'' = Some ''application/json'') \<and>
     (map_of (headers req) ''Content-Type'' = Some ''application/json'' \<longrightarrow>
          data req = Serialized (dumps (if truthy content then content else JObj [])))"
proof -
  let ?h = "case hdrs of None \<Rightarrow> [] | Some h \<Rightarrow> h"
  obtain req where
    p: "prepare upper dumps self method path content query_params hdrs api_path = Inr req"
    using assms by (simp add: prepare_supported)
  have s: "send client upper dumps self method path content query_params hdrs api_path w =
           send_loop client req w"
    using p by (rule send_prepared)
  have tr: "\<forall>y. send client upper dumps self method path content query_params hdrs api_path w =
                Some y \<longrightarrow>
          (\<exists>k. requests (snd y) = requests w @ replicate (Suc k) req)"
    using send_loop_trace [of client req w] by (simp add: s)
  have tok: "\<forall>t. token self = Some t \<and> t \<noteq> [] \<longrightarrow> map_of (params req) ''access_token'' = Some t"
    using p assms by (auto simp: prepare_supported map_of_dict_set)
  have hd: "headers req = (if map_of ?h ''Content-Type'' = None
                           then dict_set ''Content-Type'' ''application/json'' ?h else ?h)"
    using p assms by (auto simp: prepare_supported)
  have oth: "\<forall>k. k \<noteq> ''Content-Type'' \<longrightarrow> map_of (headers req) k = map_of ?h k"
    by (simp add: hd map_of_dict_set)
  have ct: "map_of ?h ''Content-Type'' = None \<longrightarrow>
            map_of (headers req) ''Content-Type'' = Some ''application/json''"
    by (simp add: hd map_of_dict_set)
  have ser: "map_of (headers req) ''Content-Type'' = Some ''application/json'' \<longrightarrow>
            data req = Serialized (dumps (if truthy content then content else JObj []))"
    using p assms by (auto simp: prepare_supported map_of_dict_set)
  show ?thesis
    by (intro exI [of _ req] conjI p s tr tok oth ct ser)
qed

theorem send_request_shape_witness:
  "ascii_upper ''get'' \<in> set supported_methods \<and>
   map_of (params (example_request ''GET'')) ''access_token'' = Some ''secret'' \<and>
   map_of (headers (example_request ''GET'')) ''Authorization'' = None \<and>
   map_of (headers (example_request ''GET'')) ''Content-Type'' = Some ''application/json'' \<and>
   data (example_request ''GET'') = Serialized (example_dumps (JObj []))"
proof -
  have h: "ascii_upper ''get'' \<in> set supported_methods"
    by (simp add: case_defs supported_methods_def)
  from send_request_shape [of ascii_upper "''get''" example_dumps example_session
      "''/profile/@neo:matrix.org/displayname''" JNull None None "''/_matrix/client/r0''"
      always_ok world0, OF h]
  obtain req where
    p: "prepare ascii_upper example_dumps example_session ''get''
          ''/profile/@neo:matrix.org/displayname'' JNull None None ''/_matrix/client/r0'' =
        Inr req" and
    tok: "\<forall>t. token example_session = Some t \<and> t \<noteq> [] \<longrightarrow>
              map_of (params req) ''access_token'' = Some t" and
    oth: "\<forall>k. k \<noteq> ''Content-Type'' \<longrightarrow> map_of (headers req) k = map_of [] k" and
    ct: "map_of (headers req) ''Content-Type'' = Some ''application/json''" and
    ser: "map_of (headers req) ''Content-Type'' = Some ''application/json'' \<longrightarrow>
          data req = Serialized (example_dumps (JObj []))"
    by auto
  have r: "req = example_request ''GET''"
    using p by (simp add: example_prepare)
  from tok have "map_of (params req) ''access_token'' = Some ''secret''"
    by (simp add: example_session_def)
  moreover from oth have "map_of (headers req) ''Authorization'' = None"
    by simp
  moreover from ser ct have "data req = Serialized (example_dumps (JObj []))"
    by simp
  ultimately show ?thesis
    using h ct unfolding r by simp
qed

text \<open>
  C9. \<^verbatim>\<open>str.upper\<close> enters through what it does on strings of ASCII letters: it
  moves \<open>a\<close> to \<open>z\<close> to \<open>A\<close> to \<open>Z\<close> and keeps \<open>A\<close> to \<open>Z\<close>. Let \<open>s\<close> be one of
  \<open>GET\<close>, \<open>PUT\<close>, \<open>DELETE\<close>, \<open>POST\<close> and let the method argument differ from
  \<open>s\<close> in the case of its letters only, in any mixture of upper and lower case.
  Then the request is built with method \<open>s\<close>, \<^verbatim>\<open>_send\<close> is the retry loop on
  that request, and the call does not end in the \<^verbatim>\<open>MatrixError\<close> of the method
  check.
\<close>

theorem send_method_case_insensitive:
  assumes "\<forall>m. set m \<subseteq> set ascii_letters \<longrightarrow> upper m = ascii_upper m"
    and "s \<in> set supported_methods"
    and "ascii_lower method = ascii_lower s"
  shows "\<exists>req. prepare upper dumps self method path content query_params hdrs api_path = Inr req \<and>
     req_method req = s \<and>
     send client upper dumps self method path content query_params hdrs api_path w =
       send_loop client req w \<and>
     (\<forall>m w'. send client upper dumps self method path content query_params hdrs api_path w \<noteq>
             Some (Inl (MatrixError m), w'))"
proof -
  have "set method \<subseteq> set ascii_letters"
    using assms(2,3) by (rule case_variant_letters)
  with assms(1) have "upper method = ascii_upper method"
    by simp
  also have "\<dots> = ascii_upper (ascii_lower method)"
    by (simp add: ascii_upper_lower)
  also have "\<dots> = ascii_upper s"
    by (simp add: assms(3) ascii_upper_lower)
  also have "\<dots> = s"
    using assms(2) by (rule ascii_upper_supported)
  finally have u: "upper method = s" .
  then have sup: "upper method \<in> set supported_methods"
    using assms(2) by simp
  obtain req where
    p: "prepare upper dumps self method path content query_params hdrs api_path = Inr req"
    and m: "req_method req = s"
    using sup u by (simp add: prepare_supported)
  have s: "send client upper dumps self method path content query_params hdrs api_path w =
           send_loop client req w"
    using p by (rule send_prepared)
  have "\<forall>m w'. send_loop client req w \<noteq> Some (Inl (MatrixError m), w')"
    using send_loop_trace [of client req w] by fastforce
  with p m s show ?thesis by simp
qed

theorem send_method_case_insensitive_witness:
  "''POST'' \<in> set supported_methods \<and> ascii_lower ''Post'' = ascii_lower ''POST'' \<and>
   send always_ok ascii_upper example_dumps example_session ''Post''
     ''/profile/@neo:matrix.org/displayname'' JNull None None ''/_matrix/client/r0'' world0 \<noteq>
   Some (Inl (MatrixError ''Unsupported HTTP method: POST''), world0)"
proof -
  have a: "''POST'' \<in> set supported_methods"
    by (simp add: supported_methods_def)
  have b: "ascii_lower ''Post'' = ascii_lower ''POST''"
    by (simp add: case_defs)
  have c: "\<forall>m. set m \<subseteq> set ascii_letters \<longrightarrow> ascii_upper m = ascii_upper m"
    by simp
  from send_method_case_insensitive [of ascii_upper "''POST''" "''Post''" example_dumps
      example_session "''/profile/@neo:matrix.org/displayname''" JNull None None
      "''/_matrix/client/r0''" always_ok world0, OF c a b]
  show ?thesis using a b by blast
qed

section \<open>The display name of a room member\<close>

text \<open>
  The loop of \<^verbatim>\<open>get_room_displayname\<close> on a listing whose entries all have a
  sender: it stops at the first entry of the queried user.
\<close>

lemma member_loop_found:
  assumes "\<forall>e\<in>set es. \<exists>s. subscript e ''sender'' = Inr s"
    and "find (\<lambda>e. subscript e ''sender'' = Inr (JStr uid)) es = Some mem"
  shows "member_loop es uid =
         (case subscript mem ''content'' of Inl e \<Rightarrow> Inl e | Inr c \<Rightarrow> subscript c ''displayname'')"
  using assms
proof (induction es)
  case Nil
  then show ?case by simp
next
  case (Cons e es)
  from Cons.prems(1) obtain s where s: "subscript e ''sender'' = Inr s"
    by auto
  show ?case
  proof (cases "s = JStr uid")
    case True
    with s Cons.prems(2) have "mem = e" by simp
    with s True show ?thesis by simp
  next
    case False
    with s Cons.prems(2) have "find (\<lambda>e. subscript e ''sender'' = Inr (JStr uid)) es = Some mem"
      by simp
    moreover from Cons.prems(1) have "\<forall>e\<in>set es. \<exists>s. subscript e ''sender'' = Inr s"
      by simp
    ultimately have "member_loop es uid =
         (case subscript mem ''content'' of Inl e \<Rightarrow> Inl e | Inr c \<Rightarrow> subscript c ''displayname'')"
      by (rule Cons.IH [rotated])
    with s False show ?thesis by simp
  qed
qed

lemma member_loop_none:
  assumes "\<forall>e\<in>set es. \<exists>s. subscript e ''sender'' = Inr s \<and> s \<noteq> JStr uid"
  shows "member_loop es uid = Inr JNull"
  using assms by (induction es) auto

text \<open>
  \<^verbatim>\<open>get_room_displayname\<close> up to the loop: the room is resolved (through
  \<^verbatim>\<open>get_room_id\<close> when it is given by alias), its members are fetched, and the
  loop runs on the list under \<^verbatim>\<open>chunk\<close>.
\<close>

lemma get_room_displayname_members:
  assumes "(if startswith_hash room_id
            then get_room_id client upper dumps quote self room_id w
            else Some (Inr (JStr room_id), w)) = Some (Inr rid, w1)"
    and "get_room_members rid w1 = Some (Inr members, w2)"
    and "subscript members ''chunk'' = Inr (JArr es)"
  shows "get_room_displayname client upper dumps quote get_room_members self room_id uid w =
         Some (member_loop es uid, w2)"
proof (cases "startswith_hash room_id")
  case True
  with assms(1) have "get_room_id client upper dumps quote self room_id w = Some (Inr rid, w1)"
    by simp
  with True assms(2,3) show ?thesis
    by (simp add: get_room_displayname_def)
next
  case False
  with assms(1) have "rid = JStr room_id" and "w1 = w"
    by simp_all
  with False assms(2,3) show ?thesis
    by (simp add: get_room_displayname_def)
qed

text \<open>
  C8. For every room id and user id: when the room resolves to \<open>rid\<close>, the member
  listing of \<open>rid\<close> has under \<^verbatim>\<open>chunk\<close> a list of entries that all have a
  \<^verbatim>\<open>sender\<close> (the shape of the listing in the specification), and \<open>mem\<close> is the
  first entry whose sender is the queried user, then \<^verbatim>\<open>get_room_displayname\<close>
  returns the \<^verbatim>\<open>content.displayname\<close> of \<open>mem\<close>.
\<close>

theorem get_room_displayname_first_match:
  assumes "(if startswith_hash room_id
            then get_room_id client upper dumps quote self room_id w
            else Some (Inr (JStr room_id), w)) = Some (Inr rid, w1)"
    and "get_room_members rid w1 = Some (Inr members, w2)"
    and "subscript members ''chunk'' = Inr (JArr es)"
    and "\<forall>e\<in>set es. \<exists>s. subscript e ''sender'' = Inr s"
    and "find (\<lambda>e. subscript e ''sender'' = Inr (JStr uid)) es = Some mem"
    and "subscript mem ''content'' = Inr c"
    and "subscript c ''displayname'' = Inr d"
  shows "get_room_displayname client upper dumps quote get_room_members self room_id uid w =
         Some (Inr d, w2)"
proof -
  have "member_loop es uid = Inr d"
    using member_loop_found [OF assms(4,5)] assms(6,7) by simp
  moreover have "get_room_displayname client upper dumps quote get_room_members self room_id uid w =
                 Some (member_loop es uid, w2)"
    using assms(1-3) by (rule get_room_displayname_members)
  ultimately show ?thesis by simp
qed

text \<open>The alias \<open>#matrix:matrix.org\<close> resolved on the example server: one request.\<close>

lemma example_get_room_id:
  "get_room_id directory ascii_upper example_dumps (\<lambda>s. s) example_session ''#matrix:matrix.org'' world0 =
   Some (Inr (JStr ''!MeRdFpEonLoCwhoHeT:matrix.org''),
         [Request directory_request])"
proof -
  have p: "prepare ascii_upper example_dumps example_session ''GET''
             ''/directory/room/#matrix:matrix.org'' JNull None None ''/_matrix/client/r0'' =
           Inr directory_request"
    by (simp add: prepare_def example_dumps_def example_session_def directory_request_def
          supported_methods_def case_defs Let_def)
  have "send_loop directory directory_request world0 =
        Some (Inr (JObj [(''room_id'', JStr ''!MeRdFpEonLoCwhoHeT:matrix.org'')]),
              world0 @ [Request directory_request])"
    by (rule send_loop_ok) (simp_all add: directory_def world0_def)
  then show ?thesis
    by (simp add: get_room_id_def send_prepared [OF p] world0_def)
qed

text \<open>
  A room given by alias, and a user with two entries in the listing: the display
  name of the first one is returned.
\<close>

theorem get_room_displayname_first_match_witness:
  "get_room_displayname directory ascii_upper example_dumps (\<lambda>s. s) example_get_room_members example_session
     ''#matrix:matrix.org'' ''@neo:matrix.org'' world0 =
   Some (Inr (JStr ''Neo''), [Request directory_request])"
proof -
  let ?neo = "JObj [(''sender'', JStr ''@neo:matrix.org''),
                    (''content'', JObj [(''displayname'', JStr ''Neo'')])]"
  show ?thesis
  proof (rule get_room_displayname_first_match [where mem = ?neo
        and c = "JObj [(''displayname'', JStr ''Neo'')]"
        and rid = "JStr ''!MeRdFpEonLoCwhoHeT:matrix.org''" and members = example_members])
    show "(if startswith_hash ''#matrix:matrix.org''
           then get_room_id directory ascii_upper example_dumps (\<lambda>s. s) example_session ''#matrix:matrix.org'' world0
           else Some (Inr (JStr ''#matrix:matrix.org''), world0)) =
          Some (Inr (JStr ''!MeRdFpEonLoCwhoHeT:matrix.org''), [Request directory_request])"
      by (simp add: example_get_room_id)
    show "example_get_room_members (JStr ''!MeRdFpEonLoCwhoHeT:matrix.org'')
            ([Request directory_request]) =
          Some (Inr example_members, [Request directory_request])"
      by (simp add: example_get_room_members_def)
    show "subscript example_members ''chunk'' = Inr (JArr
       [JObj [(''sender'', JStr ''@trinity:matrix.org''),
              (''content'', JObj [(''displayname'', JStr ''Trinity'')])],
        ?neo,
        JObj [(''sender'', JStr ''@neo:matrix.org''),
              (''content'', JObj [(''displayname'', JStr ''The One'')])]])"
      by (simp add: example_members_def)
  qed simp_all
qed

text \<open>
  C10. When every entry of the listing has a sender and none of them is the queried
  user, the loop falls through and \<^verbatim>\<open>get_room_displayname\<close> returns
  \<^verbatim>\<open>None\<close>: no exception, no fallback value.
\<close>

theorem get_room_displayname_no_match:
  assumes "(if startswith_hash room_id
            then get_room_id client upper dumps quote self room_id w
            else Some (Inr (JStr room_id), w)) = Some (Inr rid, w1)"
    and "get_room_members rid w1 = Some (Inr members, w2)"
    and "subscript members ''chunk'' = Inr (JArr es)"
    and "\<forall>e\<in>set es. \<exists>s. subscript e ''sender'' = Inr s \<and> s \<noteq> JStr uid"
  shows "get_room_displayname client upper dumps quote get_room_members self room_id uid w =
         Some (Inr JNull, w2)"
proof -
  have "get_room_displayname client upper dumps quote get_room_members self room_id uid w =
        Some (member_loop es uid, w2)"
    using assms(1-3) by (rule get_room_displayname_members)
  then show ?thesis
    using member_loop_none [OF assms(4)] by simp
qed

theorem get_room_displayname_no_match_witness:
  "get_room_displayname always_ok ascii_upper example_dumps (\<lambda>s. s) example_get_room_members example_session
     ''!MeRdFpEonLoCwhoHeT:matrix.org'' ''@smith:matrix.org'' world0 =
   Some (Inr JNull, world0)"
proof (rule get_room_displayname_no_match [where members = example_members
      and rid = "JStr ''!MeRdFpEonLoCwhoHeT:matrix.org''"])
  show "subscript example_members ''chunk'' = Inr (JArr
       [JObj [(''sender'', JStr ''@trinity:matrix.org''),
              (''content'', JObj [(''displayname'', JStr ''Trinity'')])],
        JObj [(''sender'', JStr ''@neo:matrix.org''),
              (''content'', JObj [(''displayname'', JStr ''Neo'')])],
        JObj [(''sender'', JStr ''@neo:matrix.org''),
              (''content'', JObj [(''displayname'', JStr ''The One'')])]])"
    by (simp add: example_members_def)
qed (simp_all add: example_get_room_members_def)

section \<open>Translating wire events\<close>

text \<open>
  C6. For a wire event of type \<^verbatim>\<open>m.room.message\<close> with message type
  \<^verbatim>\<open>m.text\<close> and no \<^verbatim>\<open>m.replace\<close> relation, whose sender the enrichment
  collaborator resolves to \<open>nick\<close>, \<^verbatim>\<open>create_event\<close> yields a Message whose text
  is \<^verbatim>\<open>content.body\<close>, whose user is \<open>nick\<close>, whose user id is the sender,
  whose target is the argument, whose event id is that of the wire event, and whose
  raw event is the wire event itself.
\<close>

theorem create_event_message:
  assumes "field wire_event ''type'' = JStr ''m.room.message''"
    and "field (field wire_event ''content'') ''msgtype'' = JStr ''m.text''"
    and "field (field (field wire_event ''content'') ''m.relates_to'') ''rel_type'' \<noteq>
         JStr ''m.replace''"
    and "get_display_name (field wire_event ''sender'') = Inr nick"
  shows "create_event get_display_name get_download_url wire_event tgt =
         Inr (Some \<lparr>variant = Message (field (field wire_event ''content'') ''body''),
                     user = nick, user_id = field wire_event ''sender'', target = tgt,
                     event_id = field wire_event ''event_id'', raw_event = wire_event\<rparr>)"
proof -
  have "dispatch get_download_url wire_event =
        Some (Message (field (field wire_event ''content'') ''body''))"
    using assms(1-3) by (simp add: dispatch_def Let_def)
  then show ?thesis
    using assms(4) by (simp add: create_event_def)
qed

text \<open>The test \<^verbatim>\<open>test_create_message\<close>.\<close>

theorem create_event_message_witness:
  "create_event rabbit_hole aurl (message_json ''m.room.message'' ''m.text'') ''hello'' =
   Inr (Some \<lparr>variant = Message (JStr ''I just did it manually.''),
               user = JStr ''Rabbit Hole'', user_id = JStr ''@neo:matrix.org'',
               target = ''hello'', event_id = JStr ''$15573463541827394vczPd:matrix.org'',
               raw_event = message_json ''m.room.message'' ''m.text''\<rparr>)"
proof -
  have "create_event rabbit_hole aurl (message_json ''m.room.message'' ''m.text'') ''hello'' =
        Inr (Some \<lparr>variant = Message (field (field (message_json ''m.room.message'' ''m.text'')
                                                  ''content'') ''body''),
               user = JStr ''Rabbit Hole'',
               user_id = field (message_json ''m.room.message'' ''m.text'') ''sender'',
               target = ''hello'',
               event_id = field (message_json ''m.room.message'' ''m.text'') ''event_id'',
               raw_event = message_json ''m.room.message'' ''m.text''\<rparr>)"
    by (rule create_event_message) (simp_all add: message_json_def rabbit_hole_def)
  then show ?thesis
    by (simp add: message_json_def)
qed

lemma dispatch_unrecognized_type:
  assumes "\<forall>t\<in>set recognized_types. field wire_event ''type'' \<noteq> JStr t"
  shows "dispatch get_download_url wire_event = None"
  using assms by (simp add: dispatch_def recognized_types_def Let_def)

lemma dispatch_unrecognized_msgtype:
  assumes "field wire_event ''type'' = JStr ''m.room.message''"
    and "\<forall>m\<in>set recognized_msgtypes. field (field wire_event ''content'') ''msgtype'' \<noteq> JStr m"
  shows "dispatch get_download_url wire_event = None"
  using assms by (simp add: dispatch_def recognized_msgtypes_def Let_def)

text \<open>
  C7. For a wire event whose type is none of the recognised types, or whose type is
  \<^verbatim>\<open>m.room.message\<close> and whose message type is none of the recognised message
  types, \<^verbatim>\<open>create_event\<close> returns none as a result, whatever the enrichment
  collaborator would do.
\<close>

theorem create_event_unrecognized:
  assumes "(\<forall>t\<in>set recognized_types. field wire_event ''type'' \<noteq> JStr t) \<or>
           (field wire_event ''type'' = JStr ''m.room.message'' \<and>
            (\<forall>m\<in>set recognized_msgtypes.
               field (field wire_event ''content'') ''msgtype'' \<noteq> JStr m))"
  shows "create_event get_display_name get_download_url wire_event tgt = Inr None"
proof -
  from assms have "dispatch get_download_url wire_event = None"
  proof
    assume "\<forall>t\<in>set recognized_types. field wire_event ''type'' \<noteq> JStr t"
    then show ?thesis by (rule dispatch_unrecognized_type)
  next
    assume "field wire_event ''type'' = JStr ''m.room.message'' \<and>
            (\<forall>m\<in>set recognized_msgtypes.
               field (field wire_event ''content'') ''msgtype'' \<noteq> JStr m)"
    then show ?thesis by (simp add: dispatch_unrecognized_msgtype)
  qed
  then show ?thesis by (simp add: create_event_def)
qed

text \<open>
  The tests \<^verbatim>\<open>test_unsupported_type\<close> and \<^verbatim>\<open>test_unsupported_message_type\<close>,
  with an enrichment collaborator that would fail.
\<close>

theorem create_event_unrecognized_witness:
  "create_event no_nick aurl (message_json ''wibble'' ''m.text'') ''hello'' = Inr None \<and>
   create_event no_nick aurl (message_json ''m.room.message'' ''wibble'') ''hello'' = Inr None"
proof
  show "create_event no_nick aurl (message_json ''wibble'' ''m.text'') ''hello'' = Inr None"
    by (rule create_event_unrecognized)
       (simp add: message_json_def recognized_types_def)
  show "create_event no_nick aurl (message_json ''m.room.message'' ''wibble'') ''hello'' = Inr None"
    by (rule create_event_unrecognized)
       (simp add: message_json_def recognized_msgtypes_def)
qed

end
